theory Spec2Isabelle
  imports Main "HOL-Library.Signed_Division"
begin

section \<open>Arbitrary-precision integers of the ethers library\<close>

text \<open>
  The source (\<^verbatim>\<open>src/gas.ts\<close>) computes with the \<^verbatim>\<open>BigNumber\<close> class of ethers v5:
  an immutable signed integer of arbitrary precision. A \<^verbatim>\<open>BigNumber\<close> is modelled as an
  \<open>int\<close>. The library is not part of the repository; its operations are written out
  here with the failures they raise:
  \<^item> \<^verbatim>\<open>BigNumber.from\<close> of a decimal or hexadecimal string that does not match the
    expected pattern raises an invalid-argument error;
  \<^item> \<^verbatim>\<open>BigNumber.from\<close> of a JS number at or beyond \<^verbatim>\<open>0x1fffffffffffff\<close> in magnitude raises
    an overflow fault;
  \<^item> \<^verbatim>\<open>div\<close> by zero raises a division-by-zero fault; otherwise the quotient is
    truncated toward zero (\<open>sdiv\<close>).
  A JS \<^verbatim>\<open>number\<close> is an IEEE double. The running gas total and the request counter
  are integer-valued doubles, an \<open>int\<close> here, and a sum of two of them is rounded as a
  double is: to the nearest representable value, a tie to the even significand
  (\<open>js_add\<close>). The number of blocks and the loop counter of the projection are integers.
\<close>

datatype error = DivisionByZero | Overflow | InvalidArgument

text \<open>The argument type \<^verbatim>\<open>BigNumberish\<close>: a JS number, a string, or a \<^verbatim>\<open>BigNumber\<close>.\<close>

datatype bignumberish = Num int | Str string | BN int

definition MAX_SAFE :: int where
  "MAX_SAFE = 9007199254740991"

text \<open>
  Doubles have a 53-bit significand: every integer up to \<open>2 ^ 53\<close> in magnitude is one,
  and from \<open>2 ^ 52 * u\<close> up to \<open>2 ^ 53 * u\<close>, for a power of two \<open>u\<close>, they are the multiples
  of \<open>u\<close>. \<open>ulp_above 1 m\<close> is that spacing \<open>u\<close> for \<open>m\<close> at or beyond \<open>2 ^ 53\<close>.
\<close>

function ulp_above :: "int \<Rightarrow> int \<Rightarrow> int" where
  "ulp_above u m = (if 0 < u \<and> 9007199254740992 * u \<le> m then ulp_above (2 * u) m else u)"
  by pat_completeness auto
termination
  by (relation "measure (\<lambda>(u, m). nat (m + 1 - 9007199254740992 * u))") auto

definition round_double :: "int \<Rightarrow> int" where
  "round_double m =
     (if \<bar>m\<bar> \<le> 9007199254740992 then m
      else (let u = ulp_above 1 \<bar>m\<bar>; q = \<bar>m\<bar> div u; r = \<bar>m\<bar> mod u in
            sgn m * (if 2 * r < u \<or> (2 * r = u \<and> even q) then q * u else (q + 1) * u)))"

definition js_add :: "int \<Rightarrow> int \<Rightarrow> int" where
  "js_add a b = round_double (a + b)"

definition and_then :: "error + 'a \<Rightarrow> ('a \<Rightarrow> error + 'b) \<Rightarrow> error + 'b" where
  "and_then m f = (case m of Inl e \<Rightarrow> Inl e | Inr x \<Rightarrow> f x)"

definition dec_digit :: "char \<Rightarrow> int option" where
  "dec_digit c = map_of
     [(CHR ''0'', 0), (CHR ''1'', 1), (CHR ''2'', 2), (CHR ''3'', 3), (CHR ''4'', 4),
      (CHR ''5'', 5), (CHR ''6'', 6), (CHR ''7'', 7), (CHR ''8'', 8), (CHR ''9'', 9)] c"

definition hex_digit :: "char \<Rightarrow> int option" where
  "hex_digit c = (case dec_digit c of Some d \<Rightarrow> Some d | None \<Rightarrow> map_of
     [(CHR ''a'', 10), (CHR ''b'', 11), (CHR ''c'', 12), (CHR ''d'', 13), (CHR ''e'', 14),
      (CHR ''f'', 15), (CHR ''A'', 10), (CHR ''B'', 11), (CHR ''C'', 12), (CHR ''D'', 13),
      (CHR ''E'', 14), (CHR ''F'', 15)] c)"

text \<open>Reads a digit string in the given base, most significant digit first.\<close>

fun digits_value :: "(char \<Rightarrow> int option) \<Rightarrow> int \<Rightarrow> int \<Rightarrow> string \<Rightarrow> int option" where
  "digits_value dv base acc [] = Some acc"
| "digits_value dv base acc (c # cs) =
     (case dv c of None \<Rightarrow> None | Some d \<Rightarrow> digits_value dv base (base * acc + d) cs)"

text \<open>
  \<^verbatim>\<open>BigNumber.from\<close> takes a string that matches \<^verbatim>\<open>/^-?0x[0-9a-f]+$/i\<close> (tried first) or
  \<^verbatim>\<open>/^-?[0-9]+$/\<close> and rejects anything else. The first pattern ignores case, but the
  library's \<^verbatim>\<open>toHex\<close> knows only the lower-case prefix \<^verbatim>\<open>0x\<close>: a string with the prefix
  \<^verbatim>\<open>0X\<close> is stored as it is behind a second prefix, and the first arithmetic on that value
  throws on the character \<^verbatim>\<open>X\<close>. Every string the source converts is used in arithmetic
  in the same callback, so such a string is a failure of the conversion here. Hexadecimal
  digits of either case are read.
\<close>

definition unsigned_value :: "string \<Rightarrow> int option" where
  "unsigned_value s =
     (case s of
        c0 # cx # h \<Rightarrow>
          if c0 = CHR ''0'' \<and> cx = CHR ''x'' \<and> h \<noteq> []
          then digits_value hex_digit 16 0 h
          else digits_value dec_digit 10 0 s
      | [] \<Rightarrow> None
      | _ \<Rightarrow> digits_value dec_digit 10 0 s)"

definition from_string :: "string \<Rightarrow> error + int" where
  "from_string s =
     (case s of
        c # r \<Rightarrow>
          if c = CHR ''-''
          then (case unsigned_value r of None \<Rightarrow> Inl InvalidArgument | Some v \<Rightarrow> Inr (- v))
          else (case unsigned_value s of None \<Rightarrow> Inl InvalidArgument | Some v \<Rightarrow> Inr v)
      | [] \<Rightarrow> Inl InvalidArgument)"

definition from_number :: "int \<Rightarrow> error + int" where
  "from_number n = (if n \<ge> MAX_SAFE \<or> n \<le> - MAX_SAFE then Inl Overflow else Inr n)"

fun bn_from :: "bignumberish \<Rightarrow> error + int" where
  "bn_from (BN v) = Inr v"
| "bn_from (Str s) = from_string s"
| "bn_from (Num n) = from_number n"

definition bn_add :: "int \<Rightarrow> bignumberish \<Rightarrow> error + int" where
  "bn_add a other = and_then (bn_from other) (\<lambda>b. Inr (a + b))"

definition bn_sub :: "int \<Rightarrow> bignumberish \<Rightarrow> error + int" where
  "bn_sub a other = and_then (bn_from other) (\<lambda>b. Inr (a - b))"

definition bn_mul :: "int \<Rightarrow> bignumberish \<Rightarrow> error + int" where
  "bn_mul a other = and_then (bn_from other) (\<lambda>b. Inr (a * b))"

definition bn_div :: "int \<Rightarrow> bignumberish \<Rightarrow> error + int" where
  "bn_div a other =
     and_then (bn_from other) (\<lambda>b. if b = 0 then Inl DivisionByZero else Inr (a sdiv b))"

section \<open>Fee projection\<close>

definition BASE_FEE_MAX_CHANGE_DENOMINATOR :: int where
  "BASE_FEE_MAX_CHANGE_DENOMINATOR = 8"



definition getBaseFeeInNextBlock :: "int \<Rightarrow> int \<Rightarrow> int \<Rightarrow> error + int" where
  "getBaseFeeInNextBlock currentBaseFeePerGas currentGasUsed currentGasLimit =
     and_then (bn_div currentGasLimit (Num 2)) (\<lambda>currentGasTarget.
       if currentGasUsed = currentGasTarget then Inr currentBaseFeePerGas
       else if currentGasUsed > currentGasTarget then
         and_then (bn_sub currentGasUsed (BN currentGasTarget)) (\<lambda>gasUsedDelta.
         and_then (bn_mul currentBaseFeePerGas (BN gasUsedDelta)) (\<lambda>p.
         and_then (bn_div p (BN currentGasTarget)) (\<lambda>q.
         and_then (bn_div q (Num BASE_FEE_MAX_CHANGE_DENOMINATOR)) (\<lambda>baseFeePerGasDelta.
         bn_add currentBaseFeePerGas (BN baseFeePerGasDelta)))))
       else
         and_then (bn_sub currentGasTarget (BN currentGasUsed)) (\<lambda>gasUsedDelta.
         and_then (bn_mul currentBaseFeePerGas (BN gasUsedDelta)) (\<lambda>p.
         and_then (bn_div p (BN currentGasTarget)) (\<lambda>q.
         and_then (bn_div q (Num BASE_FEE_MAX_CHANGE_DENOMINATOR)) (\<lambda>baseFeePerGasDelta.
         bn_sub currentBaseFeePerGas (BN baseFeePerGasDelta))))))"

section \<open>Bundle pricing\<close>

text \<open>
  Of the interface \<^verbatim>\<open>BlocksApiResponseTransactionDetails\<close> the fields below are the ones
  \<^verbatim>\<open>calculateBundlePricing\<close> reads. \<^verbatim>\<open>gas_used\<close> is a JS number, the two amounts are
  strings. The source tests \<^verbatim>\<open>'coinbase_transfer' in transactionDetail\<close> and falls back to
  \<^verbatim>\<open>BigNumber.from(0)\<close>, so that field is optional here; the tests for the two other keys
  select the same expression in both branches.
\<close>

record transaction_details =
  gas_used :: int
  gas_price :: string
  coinbase_transfer :: "string option"

text \<open>The accumulator of the reduction, and the result that extends it.\<close>

record bundle_gas_pricing =
  gasUsed :: int
  gasFeesPaidBySearcher :: int
  priorityFeesReceivedByMiner :: int
  coinbase_transfer_acc :: int

record gas_pricing = bundle_gas_pricing +
  txCount :: int
  effectiveGasPriceToSearcher :: int
  effectivePriorityFeeToMiner :: int

text \<open>\<^verbatim>\<open>Array.prototype.reduce\<close> with an initial value; an exception in the callback ends it.\<close>

fun reduce :: "('b \<Rightarrow> 'a \<Rightarrow> error + 'b) \<Rightarrow> 'a list \<Rightarrow> 'b \<Rightarrow> error + 'b" where
  "reduce f [] acc = Inr acc"
| "reduce f (x # xs) acc = and_then (f acc x) (reduce f xs)"

definition pricing_step ::
  "int \<Rightarrow> bundle_gas_pricing \<Rightarrow> transaction_details \<Rightarrow> error + bundle_gas_pricing" where
  "pricing_step baseFee acc transactionDetail =
     (let gasUsed' = gas_used transactionDetail in
      and_then (bn_from (Str (gas_price transactionDetail))) (\<lambda>gasPricePaidBySearcher.
      and_then (bn_sub gasPricePaidBySearcher (BN baseFee)) (\<lambda>priorityFeeReceivedByMiner.
      let coinbase_transfer' =
            (case coinbase_transfer transactionDetail of
               Some c \<Rightarrow> Str c
             | None \<Rightarrow> BN 0) in
      and_then (bn_mul gasPricePaidBySearcher (Num gasUsed')) (\<lambda>paid.
      and_then (bn_add (gasFeesPaidBySearcher acc) (BN paid)) (\<lambda>fees.
      and_then (bn_mul priorityFeeReceivedByMiner (Num gasUsed')) (\<lambda>received.
      and_then (bn_add (priorityFeesReceivedByMiner acc) (BN received)) (\<lambda>priority.
      and_then (bn_add (coinbase_transfer_acc acc) coinbase_transfer') (\<lambda>coinbase.
      Inr \<lparr>gasUsed = js_add (gasUsed acc) gasUsed',
           gasFeesPaidBySearcher = fees,
           priorityFeesReceivedByMiner = priority,
           coinbase_transfer_acc = coinbase\<rparr>))))))))"

definition calculateBundlePricing :: "transaction_details list \<Rightarrow> int \<Rightarrow> error + gas_pricing" where
  "calculateBundlePricing bundleTransactions baseFee =
     and_then (bn_from (Num 0)) (\<lambda>zero.
     and_then (reduce (pricing_step baseFee) bundleTransactions
                 \<lparr>gasUsed = 0, gasFeesPaidBySearcher = zero,
                  priorityFeesReceivedByMiner = zero, coinbase_transfer_acc = zero\<rparr>)
       (\<lambda>bundleGasPricing.
     and_then
       (if gasUsed bundleGasPricing > 0
        then and_then (bn_add (coinbase_transfer_acc bundleGasPricing)
                         (BN (gasFeesPaidBySearcher bundleGasPricing)))
               (\<lambda>total. bn_div total (Num (gasUsed bundleGasPricing)))
        else bn_from (Num 0)) (\<lambda>effectiveGasPriceToSearcher'.
     and_then
       (if gasUsed bundleGasPricing > 0
        then and_then (bn_add (coinbase_transfer_acc bundleGasPricing)
                         (BN (priorityFeesReceivedByMiner bundleGasPricing)))
               (\<lambda>total. bn_div total (Num (gasUsed bundleGasPricing)))
        else bn_from (Num 0)) (\<lambda>effectivePriorityFeeToMiner'.
     Inr \<lparr>gasUsed = gasUsed bundleGasPricing,
          gasFeesPaidBySearcher = gasFeesPaidBySearcher bundleGasPricing,
          priorityFeesReceivedByMiner = priorityFeesReceivedByMiner bundleGasPricing,
          coinbase_transfer_acc = coinbase_transfer_acc bundleGasPricing,
          txCount = int (length bundleTransactions),
          effectiveGasPriceToSearcher = effectiveGasPriceToSearcher',
          effectivePriorityFeeToMiner = effectivePriorityFeeToMiner'\<rparr>))))"

text \<open>
  Reference values for stating the sums: the integer a record's \<^verbatim>\<open>gas_price\<close> string
  denotes, its coinbase transfer (0 when the key is absent), the readable records, whose
  strings both denote integers, and the well-formed ones, whose gas count moreover is
  not negative.
\<close>

definition value_of :: "string \<Rightarrow> int" where
  "value_of s = (case from_string s of Inr v \<Rightarrow> v | Inl e \<Rightarrow> 0)"

definition price_of :: "transaction_details \<Rightarrow> int" where
  "price_of t = value_of (gas_price t)"

definition coinbase_of :: "transaction_details \<Rightarrow> int" where
  "coinbase_of t = (case coinbase_transfer t of Some c \<Rightarrow> value_of c | None \<Rightarrow> 0)"

definition numeric :: "string \<Rightarrow> bool" where
  "numeric s = (case from_string s of Inr v \<Rightarrow> True | Inl e \<Rightarrow> False)"

definition readable :: "transaction_details \<Rightarrow> bool" where
  "readable t \<longleftrightarrow>
     numeric (gas_price t)
     \<and> (case coinbase_transfer t of Some c \<Rightarrow> numeric c | None \<Rightarrow> True)"

definition well_formed :: "transaction_details \<Rightarrow> bool" where
  "well_formed t \<longleftrightarrow> 0 \<le> gas_used t \<and> readable t"

section \<open>Relay requests\<close>

text \<open>
  The signing capability and the hash \<^verbatim>\<open>id\<close> (keccak256 of the UTF-8 bytes) are outside
  the repository: the signer is a pair of operations that may fail, the hash a parameter
  of \<open>request\<close>. A header object is a map from names to values; an absent \<^verbatim>\<open>headers\<close>
  property spreads to nothing. Of the provider's state the signer, the connection and
  the request counter are kept; the counter is the field \<^verbatim>\<open>_nextId\<close> that the class
  inherits from \<^verbatim>\<open>JsonRpcProvider\<close>.
\<close>

datatype signer_error = SignerFailure

record signer =
  getAddress :: "signer_error + string"
  signMessage :: "string \<Rightarrow> signer_error + string"

record connection_info =
  url :: string
  headers :: "(string \<rightharpoonup> string) option"

record gas_provider =
  authSigner :: signer
  connectionInfo :: connection_info
  nextId :: int

definition spread :: "('k \<rightharpoonup> 'v) option \<Rightarrow> ('k \<rightharpoonup> 'v)" where
  "spread obj = (case obj of None \<Rightarrow> Map.empty | Some m \<Rightarrow> m)"

text \<open>
  \<open>request\<close> returns the two arguments it hands to \<^verbatim>\<open>fetchJson\<close>; the provider itself is
  left as it was. The object literal lists the signature first and the spread second,
  so an entry of the spread replaces one of the same name.
\<close>

definition request ::
  "(string \<Rightarrow> string) \<Rightarrow> gas_provider \<Rightarrow> string \<Rightarrow> signer_error + (connection_info \<times> string)" where
  "request id_hash this body =
     (case getAddress (authSigner this) of
        Inl e \<Rightarrow> Inl e
      | Inr address \<Rightarrow>
          (case signMessage (authSigner this) (id_hash body) of
             Inl e \<Rightarrow> Inl e
           | Inr signature \<Rightarrow>
               Inr ((connectionInfo this)
                      \<lparr>headers := Some ([''X-Flashbots-Signature'' \<mapsto> address @ '':'' @ signature]
                                        ++ spread (headers (connectionInfo this)))\<rparr>,
                    body)))"

datatype relay_method =
    eth_callBundle
  | eth_sendBundle
  | eth_sendPrivateTransaction
  | eth_cancelPrivateTransaction
  | flashbots_getUserStats
  | flashbots_getBundleStats

record 'p relay_request =
  rpc_method :: relay_method
  rpc_params :: 'p
  rpc_id :: int
  jsonrpc :: string

text \<open>
  \<^verbatim>\<open>id: this._nextId++\<close>: the envelope takes the counter's value, then the counter is set
  to the double nearest to that value plus one.
\<close>

definition prepareRelayRequest ::
  "relay_method \<Rightarrow> 'p \<Rightarrow> gas_provider \<Rightarrow> 'p relay_request \<times> gas_provider" where
  "prepareRelayRequest method params this =
     (\<lparr>rpc_method = method, rpc_params = params, rpc_id = nextId this, jsonrpc = ''2.0''\<rparr>,
      this\<lparr>nextId := js_add (nextId this) 1\<rparr>)"

text \<open>A run of calls on one provider, each on the state the previous one left.\<close>

fun prepare_all ::
  "(relay_method \<times> 'p) list \<Rightarrow> gas_provider \<Rightarrow> 'p relay_request list \<times> gas_provider" where
  "prepare_all [] this = ([], this)"
| "prepare_all ((method, params) # calls) this =
     (case prepareRelayRequest method params this of
        (r, this') \<Rightarrow> (case prepare_all calls this' of (rs, this'') \<Rightarrow> (r # rs, this'')))"

section \<open>Facts about the integer operations\<close>


lemma sdiv_nonneg: "0 \<le> a \<Longrightarrow> 0 \<le> b \<Longrightarrow> (a::int) sdiv b = a div b"
  by (auto simp: signed_divide_int_def sgn_if)

lemma and_then_Inr [simp]: "and_then (Inr x) f = f x"
  by (simp add: and_then_def)

lemma and_then_Inl [simp]: "and_then (Inl e) f = Inl e"
  by (simp add: and_then_def)

lemma bn_add_BN [simp]: "bn_add a (BN b) = Inr (a + b)"
  by (simp add: bn_add_def)

lemma bn_sub_BN [simp]: "bn_sub a (BN b) = Inr (a - b)"
  by (simp add: bn_sub_def)

lemma bn_mul_BN [simp]: "bn_mul a (BN b) = Inr (a * b)"
  by (simp add: bn_mul_def)

lemma from_number_safe: "- MAX_SAFE < n \<Longrightarrow> n < MAX_SAFE \<Longrightarrow> from_number n = Inr n"
  by (simp add: from_number_def)

lemma from_number_unsafe: "\<not> n < MAX_SAFE \<Longrightarrow> from_number n = Inl Overflow"
  by (simp add: from_number_def)

lemma from_number_0 [simp]: "from_number 0 = Inr 0"
  by (simp add: from_number_def MAX_SAFE_def)

lemma numeric_value: "numeric s \<Longrightarrow> from_string s = Inr (value_of s)"
  by (simp add: numeric_def value_of_def split: sum.splits)

section \<open>The projection loop\<close>









section \<open>The next-block estimate\<close>

lemma next_fee_cases:
  "getBaseFeeInNextBlock f g L =
     (if g = L sdiv 2 then Inr f
      else if L sdiv 2 = 0 then Inl DivisionByZero
      else if g > L sdiv 2 then Inr (f + f * (g - L sdiv 2) sdiv (L sdiv 2) sdiv 8)
      else Inr (f - f * (L sdiv 2 - g) sdiv (L sdiv 2) sdiv 8))"
  by (simp add: getBaseFeeInNextBlock_def bn_div_def from_number_def MAX_SAFE_def
      BASE_FEE_MAX_CHANGE_DENOMINATOR_def)

lemma next_fee_value:
  assumes "0 \<le> f" "0 \<le> g" "0 \<le> L"
  shows "getBaseFeeInNextBlock f g L =
     (if g = L div 2 then Inr f
      else if L div 2 = 0 then Inl DivisionByZero
      else if g > L div 2 then Inr (f + f * (g - L div 2) div (L div 2) div 8)
      else Inr (f - f * (L div 2 - g) div (L div 2) div 8))"
proof -
  define t where "t = L div 2"
  from assms have t: "L sdiv 2 = t" and t0: "0 \<le> t" by (simp_all add: sdiv_nonneg t_def)
  have up: "f * (g - t) sdiv t sdiv 8 = f * (g - t) div t div 8" if "t < g"
  proof -
    from that assms have p: "0 \<le> f * (g - t)" by simp
    then have "0 \<le> f * (g - t) div t" using t0 by (simp add: div_int_pos_iff)
    then show ?thesis using p t0 by (simp add: sdiv_nonneg)
  qed
  have down: "f * (t - g) sdiv t sdiv 8 = f * (t - g) div t div 8" if "g < t"
  proof -
    from that assms have p: "0 \<le> f * (t - g)" by simp
    then have "0 \<le> f * (t - g) div t" using t0 by (simp add: div_int_pos_iff)
    then show ?thesis using p t0 by (simp add: sdiv_nonneg)
  qed
  show ?thesis
    unfolding t_def [symmetric] next_fee_cases t using up down by auto
qed

lemma delta_bounds:
  assumes "0 \<le> (a::int)" "0 < t"
  shows "0 \<le> a div t div 8" and "0 < a div t div 8 \<longleftrightarrow> 8 * t \<le> a"
proof -
  from assms have eq: "a div t div 8 = a div (t * 8)"
    by (simp add: zdiv_zmult2_eq)
  from assms show "0 \<le> a div t div 8"
    unfolding eq by (simp add: pos_imp_zdiv_nonneg_iff)
  from assms have "0 < a div (t * 8) \<longleftrightarrow> t * 8 \<le> a"
    by (intro pos_imp_zdiv_pos_iff) simp
  then show "0 < a div t div 8 \<longleftrightarrow> 8 * t \<le> a"
    unfolding eq by (simp add: mult.commute)
qed


section \<open>Rounding to a double\<close>

declare ulp_above.simps [simp del]

lemma round_double_exact: "\<bar>m\<bar> \<le> 9007199254740992 \<Longrightarrow> round_double m = m"
  by (simp add: round_double_def)

lemma ulp_above_bounds:
  "0 < u \<Longrightarrow> 4503599627370496 * u \<le> m \<Longrightarrow>
     u \<le> ulp_above u m \<and> 4503599627370496 * ulp_above u m \<le> m"
proof (induction u m rule: ulp_above.induct)
  case (1 u m)
  show ?case
  proof (cases "0 < u \<and> 9007199254740992 * u \<le> m")
    case True
    then have "0 < 2 * u" and "4503599627370496 * (2 * u) \<le> m" by simp_all
    from "1.IH" [OF True this] True show ?thesis
      by (subst (1 2) ulp_above.simps) simp
  next
    case False
    with "1.prems" show ?thesis
      by (subst (1 2) ulp_above.simps) simp
  qed
qed

lemma round_double_large:
  assumes "9007199254740992 \<le> m"
  shows "9007199254740992 \<le> round_double m"
proof (cases "m = 9007199254740992")
  case True
  then show ?thesis by (simp add: round_double_def)
next
  case False
  with assms have big: "9007199254740992 < m" by simp
  define u where "u = ulp_above 1 m"
  from big have "ulp_above 1 m = ulp_above 2 m"
    by (subst ulp_above.simps) simp
  moreover from big have "2 \<le> ulp_above 2 m \<and> 4503599627370496 * ulp_above 2 m \<le> m"
    by (intro ulp_above_bounds) simp_all
  ultimately have u2: "2 \<le> u" and um: "4503599627370496 * u \<le> m" by (simp_all add: u_def)
  define q where "q = m div u"
  from u2 have upos: "0 < u" by simp
  have "4503599627370496 * u div u \<le> m div u"
    using um upos by (intro zdiv_mono1) simp_all
  with upos have q52: "4503599627370496 \<le> q" by (simp add: q_def)
  from q52 u2 have "4503599627370496 * 2 \<le> q * u"
    by (intro mult_mono) simp_all
  then have lo: "9007199254740992 \<le> q * u" by simp
  from upos have "q * u \<le> (q + 1) * u" by (simp add: algebra_simps)
  with lo have hi: "9007199254740992 \<le> (q + 1) * u" by linarith
  from big have "round_double m = (if 2 * (m mod u) < u \<or> (2 * (m mod u) = u \<and> even q) then q * u else (q + 1) * u)"
    by (simp add: round_double_def Let_def u_def q_def)
  with lo hi show ?thesis by simp
qed

lemma js_add_exact: "\<bar>a + b\<bar> \<le> 9007199254740992 \<Longrightarrow> js_add a b = a + b"
  by (simp add: js_add_def round_double_exact)

lemma counter_stalls: "js_add 9007199254740992 1 = 9007199254740992"
  by (simp add: js_add_def round_double_def ulp_above.simps)


section \<open>The reduction over the records\<close>

lemma coinbase_added:
  assumes "readable t"
  shows "bn_add c (case coinbase_transfer t of Some c \<Rightarrow> Str c | None \<Rightarrow> BN 0)
     = Inr (c + coinbase_of t)"
  using assms
  by (cases "coinbase_transfer t")
     (simp_all add: readable_def coinbase_of_def bn_add_def numeric_value)

lemma pricing_step_value:
  assumes "readable t" and "- MAX_SAFE < gas_used t" and "gas_used t < MAX_SAFE"
  shows "pricing_step baseFee acc t =
     Inr \<lparr>gasUsed = js_add (gasUsed acc) (gas_used t),
          gasFeesPaidBySearcher = gasFeesPaidBySearcher acc + price_of t * gas_used t,
          priorityFeesReceivedByMiner =
            priorityFeesReceivedByMiner acc + (price_of t - baseFee) * gas_used t,
          coinbase_transfer_acc = coinbase_transfer_acc acc + coinbase_of t\<rparr>"
proof -
  from assms have g: "from_number (gas_used t) = Inr (gas_used t)"
    by (simp add: from_number_safe)
  from assms have p: "from_string (gas_price t) = Inr (price_of t)"
    by (simp add: readable_def price_of_def numeric_value)
  show ?thesis
    by (simp add: pricing_step_def Let_def p g coinbase_added [OF assms(1)] bn_mul_def)
qed

lemma pricing_step_overflow:
  assumes "readable t" and "\<not> gas_used t < MAX_SAFE"
  shows "pricing_step baseFee acc t = Inl Overflow"
proof -
  from assms have g: "from_number (gas_used t) = Inl Overflow"
    by (simp add: from_number_unsafe)
  from assms have p: "from_string (gas_price t) = Inr (price_of t)"
    by (simp add: readable_def price_of_def numeric_value)
  show ?thesis
    by (simp add: pricing_step_def Let_def p g bn_mul_def)
qed

lemma reduce_exact:
  assumes "\<forall>t \<in> set txs. readable t"
    and "\<bar>gasUsed acc\<bar> + sum_list (map (\<lambda>t. \<bar>gas_used t\<bar>) txs) < MAX_SAFE"
  shows "reduce (pricing_step baseFee) txs acc =
     Inr \<lparr>gasUsed = gasUsed acc + sum_list (map gas_used txs),
          gasFeesPaidBySearcher =
            gasFeesPaidBySearcher acc + sum_list (map (\<lambda>t. price_of t * gas_used t) txs),
          priorityFeesReceivedByMiner =
            priorityFeesReceivedByMiner acc
              + sum_list (map (\<lambda>t. (price_of t - baseFee) * gas_used t) txs),
          coinbase_transfer_acc =
            coinbase_transfer_acc acc + sum_list (map coinbase_of txs)\<rparr>"
  using assms
proof (induction txs arbitrary: acc)
  case Nil
  show ?case by simp
next
  case (Cons t txs)
  then have t: "readable t" and rest: "\<forall>t \<in> set txs. readable t" by simp_all
  have tail: "0 \<le> sum_list (map (\<lambda>t. \<bar>gas_used t\<bar>) txs)"
    by (rule sum_list_nonneg) auto
  from Cons.prems(2) have all: "\<bar>gasUsed acc\<bar> + \<bar>gas_used t\<bar>
      + sum_list (map (\<lambda>t. \<bar>gas_used t\<bar>) txs) < MAX_SAFE" by simp
  with tail have lo: "- MAX_SAFE < gas_used t" and hi: "gas_used t < MAX_SAFE" by linarith+
  from all tail have "\<bar>gasUsed acc + gas_used t\<bar> \<le> 9007199254740992"
    by (simp add: MAX_SAFE_def)
  then have sum: "js_add (gasUsed acc) (gas_used t) = gasUsed acc + gas_used t"
    by (rule js_add_exact)
  let ?acc' = "\<lparr>gasUsed = gasUsed acc + gas_used t,
          gasFeesPaidBySearcher = gasFeesPaidBySearcher acc + price_of t * gas_used t,
          priorityFeesReceivedByMiner =
            priorityFeesReceivedByMiner acc + (price_of t - baseFee) * gas_used t,
          coinbase_transfer_acc = coinbase_transfer_acc acc + coinbase_of t\<rparr>"
  from all have "\<bar>gasUsed ?acc'\<bar> + sum_list (map (\<lambda>t. \<bar>gas_used t\<bar>) txs) < MAX_SAFE"
    by simp
  from Cons.IH [OF rest this] show ?case
    by (simp add: pricing_step_value [OF t lo hi] sum algebra_simps)
qed

lemma reduce_large:
  assumes "\<forall>t \<in> set txs. well_formed t"
    and "0 \<le> gasUsed acc"
    and "MAX_SAFE \<le> gasUsed acc + sum_list (map gas_used txs)"
  shows "reduce (pricing_step baseFee) txs acc = Inl Overflow
       \<or> (\<exists>r. reduce (pricing_step baseFee) txs acc = Inr r \<and> MAX_SAFE \<le> gasUsed r)"
  using assms
proof (induction txs arbitrary: acc)
  case Nil
  then show ?case by simp
next
  case (Cons t txs)
  then have t: "readable t" and g0: "0 \<le> gas_used t"
    and rest: "\<forall>t \<in> set txs. well_formed t" by (simp_all add: well_formed_def)
  from rest have tail: "0 \<le> sum_list (map gas_used txs)"
    by (intro sum_list_nonneg) (auto simp: well_formed_def)
  show ?case
  proof (cases "gas_used t < MAX_SAFE")
    case False
    then show ?thesis by (simp add: pricing_step_overflow [OF t False])
  next
    case True
    from g0 have lo: "- MAX_SAFE < gas_used t" by (simp add: MAX_SAFE_def)
    let ?acc' = "\<lparr>gasUsed = js_add (gasUsed acc) (gas_used t),
          gasFeesPaidBySearcher = gasFeesPaidBySearcher acc + price_of t * gas_used t,
          priorityFeesReceivedByMiner =
            priorityFeesReceivedByMiner acc + (price_of t - baseFee) * gas_used t,
          coinbase_transfer_acc = coinbase_transfer_acc acc + coinbase_of t\<rparr>"
    have "0 \<le> gasUsed ?acc' \<and> MAX_SAFE \<le> gasUsed ?acc' + sum_list (map gas_used txs)"
    proof (cases "gasUsed acc + gas_used t \<le> 9007199254740992")
      case True
      with Cons.prems(2) g0 have "js_add (gasUsed acc) (gas_used t) = gasUsed acc + gas_used t"
        by (intro js_add_exact) simp
      with Cons.prems(2,3) g0 show ?thesis by simp
    next
      case False
      then have "9007199254740992 \<le> js_add (gasUsed acc) (gas_used t)"
        unfolding js_add_def by (intro round_double_large) simp
      with tail show ?thesis by (simp add: MAX_SAFE_def)
    qed
    then have "0 \<le> gasUsed ?acc'" and "MAX_SAFE \<le> gasUsed ?acc' + sum_list (map gas_used txs)"
      by simp_all
    from Cons.IH [OF rest this] show ?thesis
      by (simp add: pricing_step_value [OF t lo True])
  qed
qed

lemma abs_gas_used:
  assumes "\<forall>t \<in> set txs. well_formed t"
  shows "map (\<lambda>t. \<bar>gas_used t\<bar>) txs = map gas_used txs"
  using assms by (simp add: well_formed_def)

lemma pricing_exact:
  assumes rd: "\<forall>t \<in> set txs. readable t"
    and safe: "sum_list (map (\<lambda>t. \<bar>gas_used t\<bar>) txs) < MAX_SAFE"
  shows "calculateBundlePricing txs baseFee =
      Inr \<lparr>gasUsed = sum_list (map gas_used txs),
                gasFeesPaidBySearcher = sum_list (map (\<lambda>t. price_of t * gas_used t) txs),
                priorityFeesReceivedByMiner =
                  sum_list (map (\<lambda>t. (price_of t - baseFee) * gas_used t) txs),
                coinbase_transfer_acc = sum_list (map coinbase_of txs),
                txCount = int (length txs),
                effectiveGasPriceToSearcher =
                  (if sum_list (map gas_used txs) > 0
                   then (sum_list (map coinbase_of txs)
                           + sum_list (map (\<lambda>t. price_of t * gas_used t) txs))
                        sdiv sum_list (map gas_used txs)
                   else 0),
                effectivePriorityFeeToMiner =
                  (if sum_list (map gas_used txs) > 0
                   then (sum_list (map coinbase_of txs)
                           + sum_list (map (\<lambda>t. (price_of t - baseFee) * gas_used t) txs))
                        sdiv sum_list (map gas_used txs)
                   else 0)\<rparr>"
proof -
  let ?zero = "\<lparr>gasUsed = 0, gasFeesPaidBySearcher = 0,
                  priorityFeesReceivedByMiner = 0, coinbase_transfer_acc = 0\<rparr>"
  from safe have "\<bar>gasUsed ?zero\<bar> + sum_list (map (\<lambda>t. \<bar>gas_used t\<bar>) txs) < MAX_SAFE" by simp
  note red = reduce_exact [OF rd this, of baseFee]
  have "\<bar>sum_list (map gas_used txs)\<bar> \<le> sum_list (map (\<lambda>t. \<bar>gas_used t\<bar>) txs)"
    by (induction txs) auto
  with safe have "- MAX_SAFE < sum_list (map gas_used txs)"
    and "sum_list (map gas_used txs) < MAX_SAFE" by linarith+
  then have "from_number (sum_list (map gas_used txs)) = Inr (sum_list (map gas_used txs))"
    by (rule from_number_safe)
  then show ?thesis
    by (simp add: calculateBundlePricing_def red bn_div_def)
qed

lemma pricing_result:
  assumes wf: "\<forall>t \<in> set txs. well_formed t"
  shows "calculateBundlePricing txs baseFee =
     (if sum_list (map gas_used txs) < MAX_SAFE
      then Inr \<lparr>gasUsed = sum_list (map gas_used txs),
                gasFeesPaidBySearcher = sum_list (map (\<lambda>t. price_of t * gas_used t) txs),
                priorityFeesReceivedByMiner =
                  sum_list (map (\<lambda>t. (price_of t - baseFee) * gas_used t) txs),
                coinbase_transfer_acc = sum_list (map coinbase_of txs),
                txCount = int (length txs),
                effectiveGasPriceToSearcher =
                  (if sum_list (map gas_used txs) > 0
                   then (sum_list (map coinbase_of txs)
                           + sum_list (map (\<lambda>t. price_of t * gas_used t) txs))
                        sdiv sum_list (map gas_used txs)
                   else 0),
                effectivePriorityFeeToMiner =
                  (if sum_list (map gas_used txs) > 0
                   then (sum_list (map coinbase_of txs)
                           + sum_list (map (\<lambda>t. (price_of t - baseFee) * gas_used t) txs))
                        sdiv sum_list (map gas_used txs)
                   else 0)\<rparr>
      else Inl Overflow)"
proof (cases "sum_list (map gas_used txs) < MAX_SAFE")
  case True
  from wf have rd: "\<forall>t \<in> set txs. readable t" by (simp add: well_formed_def)
  from True have "sum_list (map (\<lambda>t. \<bar>gas_used t\<bar>) txs) < MAX_SAFE"
    by (simp add: abs_gas_used [OF wf])
  from pricing_exact [OF rd this] True show ?thesis by simp
next
  case False
  let ?zero = "\<lparr>gasUsed = 0, gasFeesPaidBySearcher = 0,
                  priorityFeesReceivedByMiner = 0, coinbase_transfer_acc = 0\<rparr>"
  from False have "0 \<le> gasUsed ?zero" and "MAX_SAFE \<le> gasUsed ?zero + sum_list (map gas_used txs)"
    by simp_all
  from reduce_large [OF wf this, of baseFee]
  have "calculateBundlePricing txs baseFee = Inl Overflow"
  proof
    assume "reduce (pricing_step baseFee) txs ?zero = Inl Overflow"
    then show ?thesis by (simp add: calculateBundlePricing_def)
  next
    assume "\<exists>r. reduce (pricing_step baseFee) txs ?zero = Inr r \<and> MAX_SAFE \<le> gasUsed r"
    then obtain r where r: "reduce (pricing_step baseFee) txs ?zero = Inr r"
      and big: "MAX_SAFE \<le> gasUsed r" by blast
    from big have pos: "0 < gasUsed r" by (simp add: MAX_SAFE_def)
    from big have "from_number (gasUsed r) = Inl Overflow"
      by (intro from_number_unsafe) simp
    with pos show ?thesis by (simp add: calculateBundlePricing_def r bn_div_def)
  qed
  with False show ?thesis by simp
qed

lemma pricing_only_overflow:
  assumes "\<forall>t \<in> set txs. well_formed t" and "calculateBundlePricing txs baseFee = Inl e"
  shows "e = Overflow"
  using assms(2) unfolding pricing_result [OF assms(1)] by (simp split: if_splits)

section \<open>Request ids\<close>

lemma prepare_all_ids:
  assumes "- 9007199254740992 \<le> nextId this"
    and "nextId this + int (length calls) \<le> 9007199254740992"
  shows "map rpc_id (fst (prepare_all calls this))
           = map (\<lambda>k. nextId this + int k) [0..<length calls]
       \<and> nextId (snd (prepare_all calls this)) = nextId this + int (length calls)"
  using assms
proof (induction calls arbitrary: this)
  case Nil
  show ?case by simp
next
  case (Cons c calls)
  obtain m p where c: "c = (m, p)" by (cases c)
  from Cons.prems have "\<bar>nextId this + 1\<bar> \<le> 9007199254740992" by simp
  then have inc: "js_add (nextId this) 1 = nextId this + 1" by (rule js_add_exact)
  let ?this' = "this\<lparr>nextId := nextId this + 1\<rparr>"
  obtain rs this'' where r: "prepare_all calls ?this' = (rs, this'')"
    by (cases "prepare_all calls ?this'")
  from Cons.prems have "- 9007199254740992 \<le> nextId ?this'"
    and "nextId ?this' + int (length calls) \<le> 9007199254740992" by simp_all
  from Cons.IH [OF this] r
  have ids: "map rpc_id rs = map (\<lambda>k. nextId this + 1 + int k) [0..<length calls]"
    and fin: "nextId this'' = nextId this + 1 + int (length calls)" by simp_all
  have "map (\<lambda>k. nextId this + int k) [0..<Suc (length calls)]
      = nextId this # map (\<lambda>k. nextId this + 1 + int k) [0..<length calls]"
    by (simp add: upt_rec [of 0] map_Suc_upt [symmetric] algebra_simps del: upt_Suc)
  then show ?case
    by (simp add: c prepareRelayRequest_def inc r ids fin del: upt_Suc)
qed

lemma consecutive_increasing: "sorted_wrt (<) (map (\<lambda>k. (a::int) + int k) [0..<n])"
  by (simp add: sorted_wrt_map)

section \<open>The next-block estimate: claims\<close>

text \<open>
  C1. For non-negative \<open>f\<close>, \<open>g\<close>, \<open>L\<close> and target \<open>L div 2\<close>, \<open>getBaseFeeInNextBlock f g L\<close>
  returns \<open>f\<close> when \<open>g\<close> is the target, \<open>f + f * (g - target) div target div 8\<close> when \<open>g\<close>
  is above it and \<open>f - f * (target - g) div target div 8\<close> when \<open>g\<close> is below it. On
  non-negative operands \<open>div\<close> is the truncating quotient. Where the target is 0 and
  \<open>g\<close> is above it the quotient by the target has no value, and the call raises the
  division-by-zero fault.
\<close>

theorem getBaseFeeInNextBlock_formula:
  assumes "0 \<le> f" and "0 \<le> g" and "0 \<le> L"
  shows "(g = L div 2 \<longrightarrow> getBaseFeeInNextBlock f g L = Inr f)
       \<and> (g > L div 2 \<and> L div 2 \<noteq> 0 \<longrightarrow>
            getBaseFeeInNextBlock f g L = Inr (f + f * (g - L div 2) div (L div 2) div 8))
       \<and> (g < L div 2 \<longrightarrow>
            getBaseFeeInNextBlock f g L = Inr (f - f * (L div 2 - g) div (L div 2) div 8))
       \<and> (g > L div 2 \<and> L div 2 = 0 \<longrightarrow> getBaseFeeInNextBlock f g L = Inl DivisionByZero)"
  using assms by (auto simp: next_fee_value)

text \<open>C1 at three inputs with gas limit 30000000: on, above and below the target.\<close>

theorem getBaseFeeInNextBlock_formula_witness:
  "getBaseFeeInNextBlock 1000000000 15000000 30000000 = Inr 1000000000
   \<and> getBaseFeeInNextBlock 1000000000 30000000 30000000 = Inr 1125000000
   \<and> getBaseFeeInNextBlock 1000000000 10000000 30000000 = Inr 958333334"
  using getBaseFeeInNextBlock_formula [of 1000000000 15000000 30000000]
    getBaseFeeInNextBlock_formula [of 1000000000 30000000 30000000]
    getBaseFeeInNextBlock_formula [of 1000000000 10000000 30000000]
  by simp

text \<open>
  C2, as amended. For non-negative \<open>f\<close>, \<open>g\<close>, \<open>L\<close> with a positive target \<open>L div 2\<close>, the
  result is at least \<open>f\<close> when \<open>g\<close> is above the target and at most \<open>f\<close> when \<open>g\<close> is below
  it. The inequality is strict exactly when \<open>f\<close> times the distance of \<open>g\<close> from the
  target reaches 8 times the target; below that the truncated delta is 0 and the result
  is \<open>f\<close> itself.
\<close>

theorem getBaseFeeInNextBlock_direction:
  assumes "0 \<le> f" and "0 \<le> g" and "0 \<le> L" and "0 < L div 2"
  shows "(g > L div 2 \<longrightarrow>
            (\<exists>r. getBaseFeeInNextBlock f g L = Inr r \<and> f \<le> r
                  \<and> (f < r \<longleftrightarrow> 8 * (L div 2) \<le> f * (g - L div 2))))
       \<and> (g < L div 2 \<longrightarrow>
            (\<exists>r. getBaseFeeInNextBlock f g L = Inr r \<and> r \<le> f
                  \<and> (r < f \<longleftrightarrow> 8 * (L div 2) \<le> f * (L div 2 - g))))"
proof (intro conjI impI)
  assume above: "g > L div 2"
  with assms have "0 \<le> f * (g - L div 2)" by simp
  from delta_bounds [OF this assms(4)] above assms(4)
  show "\<exists>r. getBaseFeeInNextBlock f g L = Inr r \<and> f \<le> r
             \<and> (f < r \<longleftrightarrow> 8 * (L div 2) \<le> f * (g - L div 2))"
    by (simp add: next_fee_value [OF assms(1,2,3)])
next
  assume below: "g < L div 2"
  with assms have "0 \<le> f * (L div 2 - g)" by simp
  from delta_bounds [OF this assms(4)] below assms(4)
  show "\<exists>r. getBaseFeeInNextBlock f g L = Inr r \<and> r \<le> f
             \<and> (r < f \<longleftrightarrow> 8 * (L div 2) \<le> f * (L div 2 - g))"
    by (simp add: next_fee_value [OF assms(1,2,3)])
qed

text \<open>C2, as amended, at a base fee of 100 and gas limit 20: 15 units raise it, 5 lower it.\<close>

theorem getBaseFeeInNextBlock_direction_witness:
  "(\<exists>r. getBaseFeeInNextBlock 100 15 20 = Inr r \<and> 100 \<le> r \<and> 100 < r)
   \<and> (\<exists>r. getBaseFeeInNextBlock 100 5 20 = Inr r \<and> r \<le> 100 \<and> r < 100)"
  using getBaseFeeInNextBlock_direction [of 100 15 20]
    getBaseFeeInNextBlock_direction [of 100 5 20]
  by simp

text \<open>
  C2 as stated fails: with base fee 1 and gas limit 20 the target is 10; 11 units of gas
  are above it and 9 below it, and both calls return the base fee 1 unchanged.
\<close>

theorem getBaseFeeInNextBlock_not_strict:
  "(0::int) < 20 div 2
   \<and> (11::int) > 20 div 2 \<and> getBaseFeeInNextBlock 1 11 20 = Inr 1
   \<and> (9::int) < 20 div 2 \<and> getBaseFeeInNextBlock 1 9 20 = Inr 1"
  by (simp add: next_fee_cases signed_divide_int_def)

text \<open>
  C3. The claim that no call raises a division by zero fails for
  \<open>getBaseFeeInNextBlock\<close>: with gas limit 1 (or 0) the target is 0, and one unit of gas
  used is above it, so the quotient by the target raises the division-by-zero fault.
\<close>

theorem getBaseFeeInNextBlock_zero_target_raises:
  "getBaseFeeInNextBlock 1 1 1 = Inl DivisionByZero
   \<and> getBaseFeeInNextBlock 1 1 0 = Inl DivisionByZero"
  by (simp add: next_fee_cases signed_divide_int_def)

section \<open>The projection: claims\<close>





section \<open>Bundle pricing: claims\<close>

text \<open>
  C6. On well-formed records \<open>calculateBundlePricing\<close> returns the sums over the list:
  the gas used, the gas price times the gas used, the gas price less the base fee times
  the gas used (not clamped, so a price below the base fee counts negatively), the
  coinbase transfers, and the length of the list as \<open>txCount\<close>; each effective price is
  the truncated quotient of its total by the gas used, or 0 when no gas was used. The
  one failure is the overflow fault of the library, raised when the total gas used is
  not below \<open>MAX_SAFE\<close>.
\<close>

theorem calculateBundlePricing_sums:
  assumes "\<forall>t \<in> set txs. well_formed t"
  shows "calculateBundlePricing txs baseFee =
     (if sum_list (map gas_used txs) < MAX_SAFE
      then Inr \<lparr>gasUsed = sum_list (map gas_used txs),
                gasFeesPaidBySearcher = sum_list (map (\<lambda>t. price_of t * gas_used t) txs),
                priorityFeesReceivedByMiner =
                  sum_list (map (\<lambda>t. (price_of t - baseFee) * gas_used t) txs),
                coinbase_transfer_acc = sum_list (map coinbase_of txs),
                txCount = int (length txs),
                effectiveGasPriceToSearcher =
                  (if sum_list (map gas_used txs) > 0
                   then (sum_list (map coinbase_of txs)
                           + sum_list (map (\<lambda>t. price_of t * gas_used t) txs))
                        sdiv sum_list (map gas_used txs)
                   else 0),
                effectivePriorityFeeToMiner =
                  (if sum_list (map gas_used txs) > 0
                   then (sum_list (map coinbase_of txs)
                           + sum_list (map (\<lambda>t. (price_of t - baseFee) * gas_used t) txs))
                        sdiv sum_list (map gas_used txs)
                   else 0)\<rparr>
      else Inl Overflow)"
  using assms by (rule pricing_result)

text \<open>
  C6 at the single record with 100 gas used, gas price 50 and coinbase transfer 0,
  against the base fee 10.
\<close>

theorem calculateBundlePricing_sums_witness:
  "calculateBundlePricing
     [\<lparr>gas_used = 100, gas_price = ''50'', coinbase_transfer = Some ''0''\<rparr>] 10 =
     Inr \<lparr>gasUsed = 100, gasFeesPaidBySearcher = 5000, priorityFeesReceivedByMiner = 4000,
          coinbase_transfer_acc = 0, txCount = 1, effectiveGasPriceToSearcher = 50,
          effectivePriorityFeeToMiner = 40\<rparr>"
  using calculateBundlePricing_sums
    [of "[\<lparr>gas_used = 100, gas_price = ''50'', coinbase_transfer = Some ''0''\<rparr>]" 10]
  by (simp add: well_formed_def readable_def numeric_def price_of_def coinbase_of_def
      value_of_def from_string_def unsigned_value_def dec_digit_def MAX_SAFE_def
      signed_divide_int_def)

text \<open>
  C7. On the empty list \<open>calculateBundlePricing\<close> returns \<open>txCount = 0\<close> and both effective
  prices 0, whatever the base fee; nothing is divided.
\<close>

theorem calculateBundlePricing_empty:
  "calculateBundlePricing [] baseFee =
     Inr \<lparr>gasUsed = 0, gasFeesPaidBySearcher = 0, priorityFeesReceivedByMiner = 0,
          coinbase_transfer_acc = 0, txCount = 0, effectiveGasPriceToSearcher = 0,
          effectivePriorityFeeToMiner = 0\<rparr>"
  by (simp add: calculateBundlePricing_def)

text \<open>
  C10. The guard before each division tests the total gas used, not the number of
  records. On a non-empty list of readable records whose gas counts sum to 0, and are
  small enough in magnitude for their running total to be exact, the call returns with
  both effective prices 0 and a positive \<open>txCount\<close>, while the coinbase total and the two
  fee totals are the sums over the records, which need not be 0.
\<close>

theorem calculateBundlePricing_zero_gas:
  assumes "txs \<noteq> []" and "\<forall>t \<in> set txs. readable t"
    and "sum_list (map (\<lambda>t. \<bar>gas_used t\<bar>) txs) < MAX_SAFE"
    and "sum_list (map gas_used txs) = 0"
  shows "\<exists>r. calculateBundlePricing txs baseFee = Inr r
           \<and> effectiveGasPriceToSearcher r = 0 \<and> effectivePriorityFeeToMiner r = 0
           \<and> gasUsed r = 0 \<and> txCount r > 0
           \<and> coinbase_transfer_acc r = sum_list (map coinbase_of txs)
           \<and> gasFeesPaidBySearcher r = sum_list (map (\<lambda>t. price_of t * gas_used t) txs)
           \<and> priorityFeesReceivedByMiner r
               = sum_list (map (\<lambda>t. (price_of t - baseFee) * gas_used t) txs)"
  using assms(1,4) by (simp add: pricing_exact [OF assms(2,3)])

text \<open>
  C10 at one record that used no gas and transferred 7 to the coinbase, and at two
  records whose gas counts 5 and -5 cancel while their fees do not.
\<close>

theorem calculateBundlePricing_zero_gas_witness:
  "(\<exists>r. calculateBundlePricing
          [\<lparr>gas_used = 0, gas_price = ''50'', coinbase_transfer = Some ''7''\<rparr>] 10 = Inr r
     \<and> effectiveGasPriceToSearcher r = 0 \<and> effectivePriorityFeeToMiner r = 0
     \<and> gasUsed r = 0 \<and> txCount r > 0 \<and> coinbase_transfer_acc r = 7
     \<and> gasFeesPaidBySearcher r = 0 \<and> priorityFeesReceivedByMiner r = 0)
   \<and> (\<exists>r. calculateBundlePricing
          [\<lparr>gas_used = 5, gas_price = ''50'', coinbase_transfer = Some ''7''\<rparr>,
           \<lparr>gas_used = - 5, gas_price = ''30'', coinbase_transfer = None\<rparr>] 10 = Inr r
     \<and> effectiveGasPriceToSearcher r = 0 \<and> effectivePriorityFeeToMiner r = 0
     \<and> gasUsed r = 0 \<and> txCount r > 0 \<and> coinbase_transfer_acc r = 7
     \<and> gasFeesPaidBySearcher r = 100 \<and> priorityFeesReceivedByMiner r = 100)"
  using calculateBundlePricing_zero_gas
    [of "[\<lparr>gas_used = 0, gas_price = ''50'', coinbase_transfer = Some ''7''\<rparr>]" 10]
    calculateBundlePricing_zero_gas
    [of "[\<lparr>gas_used = 5, gas_price = ''50'', coinbase_transfer = Some ''7''\<rparr>,
          \<lparr>gas_used = - 5, gas_price = ''30'', coinbase_transfer = None\<rparr>]" 10]
  by (simp add: readable_def numeric_def price_of_def coinbase_of_def value_of_def
      from_string_def unsigned_value_def dec_digit_def MAX_SAFE_def)

section \<open>Relay requests: claims\<close>

text \<open>
  C8, as amended. A call of \<open>prepareRelayRequest\<close> gives the envelope the counter's value,
  whatever is done with the envelope afterwards, and while the counter is at least
  \<open>- 2 ^ 53\<close> and below \<open>2 ^ 53\<close> it leaves the counter one higher. A run of calls on one
  provider that starts at a counter of at least \<open>- 2 ^ 53\<close> and ends at one of at most
  \<open>2 ^ 53\<close> hands out the consecutive ids from the starting value: strictly increasing,
  distinct, without a gap, and the counter ends that many higher.
\<close>

theorem prepareRelayRequest_ids:
  assumes "- 9007199254740992 \<le> nextId this"
    and "nextId this + int (length calls) \<le> 9007199254740992"
  shows "rpc_id (fst (prepareRelayRequest method params this)) = nextId this
       \<and> (nextId this < 9007199254740992 \<longrightarrow>
            nextId (snd (prepareRelayRequest method params this)) = nextId this + 1)
       \<and> map rpc_id (fst (prepare_all calls this))
           = map (\<lambda>k. nextId this + int k) [0..<length calls]
       \<and> nextId (snd (prepare_all calls this)) = nextId this + int (length calls)
       \<and> sorted_wrt (<) (map rpc_id (fst (prepare_all calls this)))
       \<and> distinct (map rpc_id (fst (prepare_all calls this)))"
proof -
  note ids = prepare_all_ids [OF assms]
  have inc: "sorted_wrt (<) (map rpc_id (fst (prepare_all calls this)))"
    by (simp only: ids consecutive_increasing)
  then have dist: "distinct (map rpc_id (fst (prepare_all calls this)))"
    by (simp add: strict_sorted_iff)
  have one: "nextId (snd (prepareRelayRequest method params this)) = nextId this + 1"
    if "nextId this < 9007199254740992"
  proof -
    from that assms(1) have "\<bar>nextId this + 1\<bar> \<le> 9007199254740992" by simp
    then show ?thesis by (simp add: prepareRelayRequest_def js_add_exact)
  qed
  from inc dist one ids show ?thesis
    by (simp add: prepareRelayRequest_def)
qed

text \<open>C8, as amended, at the counter 42 and three calls: the ids 42, 43, 44, then 45.\<close>

theorem prepareRelayRequest_ids_witness:
  "map rpc_id (fst (prepare_all
       [(eth_callBundle, ()), (eth_sendBundle, ()), (flashbots_getUserStats, ())]
       \<lparr>authSigner = \<lparr>getAddress = Inr ''0xA'', signMessage = Inr\<rparr>,
        connectionInfo = \<lparr>url = ''u'', headers = None\<rparr>, nextId = 42\<rparr>)) = [42, 43, 44]
   \<and> nextId (snd (prepare_all
       [(eth_callBundle, ()), (eth_sendBundle, ()), (flashbots_getUserStats, ())]
       \<lparr>authSigner = \<lparr>getAddress = Inr ''0xA'', signMessage = Inr\<rparr>,
        connectionInfo = \<lparr>url = ''u'', headers = None\<rparr>, nextId = 42\<rparr>)) = 45"
  using prepareRelayRequest_ids [of
       "\<lparr>authSigner = \<lparr>getAddress = Inr ''0xA'', signMessage = Inr\<rparr>,
        connectionInfo = \<lparr>url = ''u'', headers = None\<rparr>, nextId = 42\<rparr>"
       "[(eth_callBundle, ()), (eth_sendBundle, ()), (flashbots_getUserStats, ())]"
       eth_callBundle "()"]
  by (simp add: upt_rec del: prepare_all.simps)

text \<open>
  C8 as stated fails at the counter \<open>2 ^ 53\<close>: the double nearest to \<open>2 ^ 53 + 1\<close> is
  \<open>2 ^ 53\<close>, so a call leaves the counter where it was and the next call hands out the
  same id again.
\<close>

theorem prepareRelayRequest_id_repeats:
  "nextId (snd (prepareRelayRequest eth_sendBundle ()
       \<lparr>authSigner = \<lparr>getAddress = Inr ''0xA'', signMessage = Inr\<rparr>,
        connectionInfo = \<lparr>url = ''u'', headers = None\<rparr>,
        nextId = 9007199254740992\<rparr>)) = 9007199254740992
   \<and> map rpc_id (fst (prepare_all [(eth_sendBundle, ()), (eth_sendBundle, ())]
       \<lparr>authSigner = \<lparr>getAddress = Inr ''0xA'', signMessage = Inr\<rparr>,
        connectionInfo = \<lparr>url = ''u'', headers = None\<rparr>,
        nextId = 9007199254740992\<rparr>)) = [9007199254740992, 9007199254740992]"
  by (simp add: prepareRelayRequest_def counter_stalls)

text \<open>
  C9. When the signer answers, \<open>request\<close> hands the transport a header map in which an
  existing entry named \<^verbatim>\<open>X-Flashbots-Signature\<close> keeps its value; without such an entry the
  name is bound to the address, a colon and the signature; every other name has the
  value it had before. The body is passed on as it came.
\<close>

theorem request_headers_merge:
  assumes "getAddress (authSigner this) = Inr a"
    and "signMessage (authSigner this) (id_hash body) = Inr s"
  shows "\<exists>ci hs. request id_hash this body = Inr (ci, body)
           \<and> headers ci = Some hs
           \<and> (\<forall>v. spread (headers (connectionInfo this)) ''X-Flashbots-Signature'' = Some v
                  \<longrightarrow> hs ''X-Flashbots-Signature'' = Some v)
           \<and> (spread (headers (connectionInfo this)) ''X-Flashbots-Signature'' = None
                  \<longrightarrow> hs ''X-Flashbots-Signature'' = Some (a @ '':'' @ s))
           \<and> (\<forall>k. k \<noteq> ''X-Flashbots-Signature''
                  \<longrightarrow> hs k = spread (headers (connectionInfo this)) k)"
  using assms by (simp add: request_def map_add_def split: option.splits)

text \<open>
  C9 at a connection that already carries a signature header and one other header, and
  at one that carries no headers.
\<close>

theorem request_headers_merge_witness:
  "(\<exists>ci hs. request (\<lambda>b. ''h'' @ b)
       \<lparr>authSigner = \<lparr>getAddress = Inr ''0xA'', signMessage = (\<lambda>m. Inr (''s'' @ m))\<rparr>,
        connectionInfo = \<lparr>url = ''u'',
          headers = Some [''X-Flashbots-Signature'' \<mapsto> ''old'', ''Accept'' \<mapsto> ''json'']\<rparr>,
        nextId = 42\<rparr> ''{}'' = Inr (ci, ''{}'')
     \<and> headers ci = Some hs
     \<and> hs ''X-Flashbots-Signature'' = Some ''old'' \<and> hs ''Accept'' = Some ''json'')
   \<and> (\<exists>ci hs. request (\<lambda>b. ''h'' @ b)
       \<lparr>authSigner = \<lparr>getAddress = Inr ''0xA'', signMessage = (\<lambda>m. Inr (''s'' @ m))\<rparr>,
        connectionInfo = \<lparr>url = ''u'', headers = None\<rparr>,
        nextId = 42\<rparr> ''{}'' = Inr (ci, ''{}'')
     \<and> headers ci = Some hs
     \<and> hs ''X-Flashbots-Signature'' = Some ''0xA:sh{}'' \<and> hs ''Accept'' = None)"
proof -
  let ?signer = "\<lparr>getAddress = Inr ''0xA'', signMessage = (\<lambda>m. Inr (''s'' @ m))\<rparr>"
  let ?old = "[''X-Flashbots-Signature'' \<mapsto> ''old'', ''Accept'' \<mapsto> ''json'']"
  let ?p = "\<lparr>authSigner = ?signer, connectionInfo = \<lparr>url = ''u'', headers = Some ?old\<rparr>,
             nextId = 42\<rparr>"
  let ?q = "\<lparr>authSigner = ?signer, connectionInfo = \<lparr>url = ''u'', headers = None\<rparr>,
             nextId = 42\<rparr>"
  have kept: "spread (headers (connectionInfo ?p)) ''X-Flashbots-Signature'' = Some ''old''"
    and other: "spread (headers (connectionInfo ?p)) ''Accept'' = Some ''json''"
    and none: "spread (headers (connectionInfo ?q)) = Map.empty"
    by (simp_all add: spread_def)
  have diff: "''Accept'' \<noteq> ''X-Flashbots-Signature''" by simp
  from request_headers_merge [of ?p "''0xA''" "\<lambda>b. ''h'' @ b" "''{}''" "''sh{}''"]
  obtain ci hs where "request (\<lambda>b. ''h'' @ b) ?p ''{}'' = Inr (ci, ''{}'')"
    and "headers ci = Some hs"
    and "\<forall>v. spread (headers (connectionInfo ?p)) ''X-Flashbots-Signature'' = Some v
           \<longrightarrow> hs ''X-Flashbots-Signature'' = Some v"
    and "\<forall>k. k \<noteq> ''X-Flashbots-Signature'' \<longrightarrow> hs k = spread (headers (connectionInfo ?p)) k"
    by auto
  with kept other diff have first: "\<exists>ci hs. request (\<lambda>b. ''h'' @ b) ?p ''{}'' = Inr (ci, ''{}'')
     \<and> headers ci = Some hs
     \<and> hs ''X-Flashbots-Signature'' = Some ''old'' \<and> hs ''Accept'' = Some ''json''"
    by metis
  from request_headers_merge [of ?q "''0xA''" "\<lambda>b. ''h'' @ b" "''{}''" "''sh{}''"]
  obtain ci' hs' where "request (\<lambda>b. ''h'' @ b) ?q ''{}'' = Inr (ci', ''{}'')"
    and "headers ci' = Some hs'"
    and "spread (headers (connectionInfo ?q)) ''X-Flashbots-Signature'' = None
           \<longrightarrow> hs' ''X-Flashbots-Signature'' = Some (''0xA'' @ '':'' @ ''sh{}'')"
    and "\<forall>k. k \<noteq> ''X-Flashbots-Signature'' \<longrightarrow> hs' k = spread (headers (connectionInfo ?q)) k"
    by auto
  with none diff have second: "\<exists>ci hs. request (\<lambda>b. ''h'' @ b) ?q ''{}'' = Inr (ci, ''{}'')
     \<and> headers ci = Some hs
     \<and> hs ''X-Flashbots-Signature'' = Some ''0xA:sh{}'' \<and> hs ''Accept'' = None"
    by (intro exI [of _ ci'] exI [of _ hs']) simp
  from first second show ?thesis by (rule conjI)
qed

end
